theory Spec2Isabelle
  imports Main "HOL-Library.Sublist" "HOL-Library.AList"
begin

section \<open>JavaScript strings and objects as used by the MCP client manager\<close>

text \<open>
  Strings are lists of code units. \<open>String.prototype.indexOf\<close> returns the least index at
  which the pattern starts, or \<open>-1\<close>; here \<open>-1\<close> is \<open>None\<close>.
  \<open>String.prototype.includes\<close> (here \<open>includes_str\<close>) is \<open>indexOf \<noteq> -1\<close>.
\<close>

fun indexOf :: "string \<Rightarrow> string \<Rightarrow> nat option" where
  "indexOf [] p = (if p = [] then Some 0 else None)"
| "indexOf (c # cs) p =
     (if prefix p (c # cs) then Some 0 else map_option Suc (indexOf cs p))"

definition includes_str :: "string \<Rightarrow> string \<Rightarrow> bool" where
  "includes_str s p = (indexOf s p \<noteq> None)"

text \<open>\<open>Array.prototype.join\<close> on an array of strings.\<close>

fun join :: "string \<Rightarrow> string list \<Rightarrow> string" where
  "join sep [] = []"
| "join sep [x] = x"
| "join sep (x # y # ys) = x @ sep @ join sep (y # ys)"

text \<open>JSON values: tool schemas, tool results and tool arguments other than \<open>q\<close>.\<close>

datatype jsval =
    JNull
  | JBool bool
  | JNum int
  | JStr string
  | JArr "jsval list"
  | JObj "(string \<times> jsval) list"

text \<open>
  Object spread \<open>{...a, ...b}\<close> over string-keyed objects kept as association lists in
  property order: a key already present keeps its position and takes the new value, a new
  key is appended. (JavaScript lists integer-like keys first; no property below depends on
  the order of keys.)
\<close>

definition spread :: "(string \<times> 'v) list \<Rightarrow> (string \<times> 'v) list \<Rightarrow> (string \<times> 'v) list" where
  "spread a b = foldl (\<lambda>acc kv. AList.update (fst kv) (snd kv) acc) a b"

section \<open>Errors\<close>

text \<open>
  Every failure in the source is a JavaScript \<open>Error\<close> told apart by its message.
  \<open>InvalidToolName n\<close> is \<open>Error("Invalid tool name: " + n)\<close>,
  \<open>UnknownServer s\<close> is \<open>Error("No server connected for: " + s)\<close>,
  \<open>TokenNotSet i v\<close> is \<open>Error(i + " enabled but " + v + " not set in environment")\<close>,
  and \<open>SdkFailure m\<close> is a rejection coming out of the MCP SDK (process start, discovery,
  remote invocation, transport close) with message \<open>m\<close>.
\<close>

datatype error =
    InvalidToolName string
  | UnknownServer string
  | TokenNotSet string string
  | SdkFailure string

fun message :: "error \<Rightarrow> string" where
  "message (InvalidToolName n) = ''Invalid tool name: '' @ n"
| "message (UnknownServer s) = ''No server connected for: '' @ s"
| "message (TokenNotSet i v) = i @ '' enabled but '' @ v @ '' not set in environment''"
| "message (SdkFailure m) = m"

section \<open>Qualified tool names\<close>

text \<open>
  \<open>connect\<close> names each discovered tool \<open>`${entry.name}__${t.name}`\<close>.
  \<open>callTool\<close> takes \<open>sep = name.indexOf("__")\<close>, throws when \<open>sep === -1\<close>, and
  otherwise reads \<open>name.slice(0, sep)\<close> and \<open>name.slice(sep + 2)\<close>.
\<close>

definition qualifiedName :: "string \<Rightarrow> string \<Rightarrow> string" where
  "qualifiedName serverName rawName = serverName @ ''__'' @ rawName"

definition splitQualified :: "string \<Rightarrow> error + (string \<times> string)" where
  "splitQualified n =
     (case indexOf n ''__'' of
        None \<Rightarrow> Inl (InvalidToolName n)
      | Some sep \<Rightarrow> Inr (take sep n, drop (sep + 2) n))"

section \<open>The registry of enabled servers\<close>

text \<open>
  What reading a property of \<open>process.env\<close> can give besides \<open>undefined\<close>: the string
  value of an environment variable, or, for a name that is not a variable, the member of
  that name that every object inherits from \<open>Object.prototype\<close>.
\<close>

datatype envValue = EnvString string | InheritedMember string

record ServerEntry =
  name :: string
  command :: string
  args :: "string list"
  env :: "(string \<times> envValue) list"

text \<open>
  The declaration of \<open>Config\<close> is not among the source files; these are the fields that
  \<open>getEnabledServers\<close> and \<open>buildSystemPrompt\<close> read from it. The environment variables
  are an association list \<open>processEnv\<close>.
\<close>

record GithubConfig =
  github_enabled :: bool
  github_token_env :: string
  orgs :: "string list"

record JiraConfig =
  jira_enabled :: bool
  url :: string

record SlackConfig =
  slack_enabled :: bool
  slack_token_env :: string
  channels :: "string list"

record Config =
  github :: GithubConfig
  jira :: JiraConfig
  slack :: SlackConfig

text \<open>
  The names of the members of \<open>Object.prototype\<close>, which \<open>process.env\<close> inherits. Each is
  a function or an object, hence truthy.
\<close>

definition objectPrototypeNames :: "string list" where
  "objectPrototypeNames =
     [''constructor'', ''__defineGetter__'', ''__defineSetter__'', ''hasOwnProperty'',
      ''__lookupGetter__'', ''__lookupSetter__'', ''isPrototypeOf'', ''propertyIsEnumerable'',
      ''toString'', ''valueOf'', ''__proto__'', ''toLocaleString'']"

text \<open>
  \<open>process.env[k]\<close>: the variable of that name when there is one, otherwise the inherited
  member of that name when there is one, otherwise \<open>undefined\<close>, which is \<open>None\<close>.
\<close>

definition envLookup :: "(string \<times> string) list \<Rightarrow> string \<Rightarrow> envValue option" where
  "envLookup processEnv k =
     (case map_of processEnv k of
        Some v \<Rightarrow> Some (EnvString v)
      | None \<Rightarrow> if k \<in> set objectPrototypeNames then Some (InheritedMember k) else None)"

text \<open>\<open>!token\<close>: true for \<open>undefined\<close> and for the empty string, false for anything else.\<close>

fun falsy :: "envValue option \<Rightarrow> bool" where
  "falsy None = True"
| "falsy (Some (EnvString s)) = (s = [])"
| "falsy (Some (InheritedMember k)) = False"

definition githubEntry :: "envValue \<Rightarrow> ServerEntry" where
  "githubEntry token =
     \<lparr>name = ''github'', command = ''npx'',
      args = [''-y'', ''@modelcontextprotocol/server-github''],
      env = [(''GITHUB_PERSONAL_ACCESS_TOKEN'', token)]\<rparr>"

definition jiraEntry :: "string \<Rightarrow> ServerEntry" where
  "jiraEntry u =
     \<lparr>name = ''jira'', command = ''npx'', args = [''-y'', ''mcp-remote'', u], env = []\<rparr>"

definition slackEntry :: "envValue \<Rightarrow> ServerEntry" where
  "slackEntry token =
     \<lparr>name = ''slack'', command = ''npx'',
      args = [''-y'', ''@modelcontextprotocol/server-slack''],
      env = [(''SLACK_BOT_TOKEN'', token)]\<rparr>"

text \<open>
  \<open>const token = process.env[v]; if (!token) throw new Error(...)\<close>, with the
  integration's label for the message.
\<close>

definition requireToken :: "(string \<times> string) list \<Rightarrow> string \<Rightarrow> string \<Rightarrow> error + envValue" where
  "requireToken processEnv label v =
     (let token = envLookup processEnv v in
      if falsy token then Inl (TokenNotSet label v)
      else (case token of Some t \<Rightarrow> Inr t | None \<Rightarrow> Inl (TokenNotSet label v)))"

definition getEnabledServers :: "Config \<Rightarrow> (string \<times> string) list \<Rightarrow> error + ServerEntry list" where
  "getEnabledServers config processEnv =
     (case (if github_enabled (github config)
            then (case requireToken processEnv ''GitHub'' (github_token_env (github config)) of
                    Inl e \<Rightarrow> Inl e
                  | Inr token \<Rightarrow> Inr [githubEntry token])
            else Inr []) of
        Inl e \<Rightarrow> Inl e
      | Inr servers1 \<Rightarrow>
          (let servers2 = (if jira_enabled (jira config)
                           then servers1 @ [jiraEntry (url (jira config))]
                           else servers1)
           in if slack_enabled (slack config)
              then (case requireToken processEnv ''Slack'' (slack_token_env (slack config)) of
                      Inl e \<Rightarrow> Inl e
                    | Inr token \<Rightarrow> Inr (servers2 @ [slackEntry token]))
              else Inr servers2))"

section \<open>The MCP SDK as an external world\<close>

text \<open>
  Transports and clients are objects of the MCP SDK backed by child processes. They are
  handles here, and the SDK is a record of operations on an abstract world \<open>'w\<close>: every
  operation returns its outcome and the world after it. Operations that the source awaits
  inside \<open>try\<close> may reject.
\<close>

type_synonym handle = nat

record RawTool =
  raw_name :: string
  raw_description :: "string option"
  inputSchema :: jsval

text \<open>
  The arguments object of a tool call, typed as \<open>callTool\<close> reads it:
  \<open>args.q as string | undefined\<close>, and the remaining properties.
\<close>

record ToolArgs =
  args_q :: "string option"
  args_rest :: "(string \<times> jsval) list"

record 'w Sdk =
  new_transport :: "string \<Rightarrow> string list \<Rightarrow> (string \<times> envValue) list \<Rightarrow> 'w \<Rightarrow> handle \<times> 'w"
  new_client :: "'w \<Rightarrow> handle \<times> 'w"
  client_connect :: "handle \<Rightarrow> handle \<Rightarrow> 'w \<Rightarrow> (error + unit) \<times> 'w"
  list_tools :: "handle \<Rightarrow> 'w \<Rightarrow> (error + RawTool list) \<times> 'w"
  call_tool :: "handle \<Rightarrow> string \<Rightarrow> ToolArgs \<Rightarrow> 'w \<Rightarrow> (error + jsval) \<times> 'w"
  transport_close :: "handle \<Rightarrow> 'w \<Rightarrow> (error + unit) \<times> 'w"

section \<open>MCPClientManager\<close>

record MCPTool =
  tool_name :: string
  description :: "string option"
  input_schema :: jsval

record ConnectedServer =
  server_name :: string
  client :: handle
  transport :: handle
  tools :: "MCPTool list"

record MCPClientManager =
  servers :: "ConnectedServer list"
  githubOrgs :: "string list"

text \<open>The constructor: \<open>servers = []\<close>, \<open>githubOrgs\<close> as given.\<close>

definition newManager :: "string list \<Rightarrow> MCPClientManager" where
  "newManager orgList = \<lparr>servers = [], githubOrgs = orgList\<rparr>"

subsection \<open>connect\<close>

text \<open>The callback of \<open>result.tools.map\<close>.\<close>

definition toMCPTool :: "ServerEntry \<Rightarrow> RawTool \<Rightarrow> MCPTool" where
  "toMCPTool entry t =
     \<lparr>tool_name = qualifiedName (name entry) (raw_name t),
      description = Some (''['' @ name entry @ ''] '' @
                      (case raw_description t of Some d \<Rightarrow> d | None \<Rightarrow> raw_name t)),
      input_schema = inputSchema t\<rparr>"

text \<open>
  The SDK calls of one \<open>try\<close> block, in order: the transport and the client are built,
  \<open>client.connect(transport)\<close> and \<open>client.listTools()\<close> are awaited. A rejection of
  either leaves the block. The spread of \<open>process.env\<close> copies its own properties, the
  environment variables.
\<close>

definition startServer ::
  "'w Sdk \<Rightarrow> (string \<times> string) list \<Rightarrow> ServerEntry \<Rightarrow> 'w
     \<Rightarrow> (error + (handle \<times> handle \<times> RawTool list)) \<times> 'w" where
  "startServer sdk processEnv entry w =
     (case new_transport sdk (command entry) (args entry)
             (spread (spread [] (map (\<lambda>kv. (fst kv, EnvString (snd kv))) processEnv))
                (env entry)) w of
        (t, w1) \<Rightarrow>
     (case new_client sdk w1 of
        (c, w2) \<Rightarrow>
     (case client_connect sdk c t w2 of
        (Inl e, w3) \<Rightarrow> (Inl e, w3)
      | (Inr _, w3) \<Rightarrow>
     (case list_tools sdk c w3 of
        (Inl e, w4) \<Rightarrow> (Inl e, w4)
      | (Inr raws, w4) \<Rightarrow> (Inr (c, t, raws), w4)))))"

definition connected :: "ServerEntry \<Rightarrow> handle \<times> handle \<times> RawTool list \<Rightarrow> ConnectedServer" where
  "connected entry r =
     (case r of (c, t, raws) \<Rightarrow>
        \<lparr>server_name = name entry, client = c, transport = t,
         tools = map (toMCPTool entry) raws\<rparr>)"

text \<open>The body of the \<open>try\<close> block for one entry: \<open>Inl\<close> is what reaches \<open>catch\<close>.\<close>

definition tryConnect ::
  "'w Sdk \<Rightarrow> (string \<times> string) list \<Rightarrow> ServerEntry \<Rightarrow> MCPClientManager \<Rightarrow> 'w
     \<Rightarrow> (error + unit) \<times> MCPClientManager \<times> 'w" where
  "tryConnect sdk processEnv entry m w =
     (case startServer sdk processEnv entry w of
        (Inl e, w') \<Rightarrow> (Inl e, m, w')
      | (Inr r, w') \<Rightarrow> (Inr (), m\<lparr>servers := servers m @ [connected entry r]\<rparr>, w'))"

text \<open>
  The \<open>for\<close> loop with its \<open>try\<close>/\<open>catch\<close>. The handler only writes the message to
  stderr; writes to stderr (\<open>log\<close>, \<open>error\<close>, \<open>debug\<close>) are not part of the state here.
\<close>

fun connect ::
  "'w Sdk \<Rightarrow> (string \<times> string) list \<Rightarrow> ServerEntry list \<Rightarrow> MCPClientManager \<Rightarrow> 'w
     \<Rightarrow> (error + unit) \<times> MCPClientManager \<times> 'w" where
  "connect sdk processEnv [] m w = (Inr (), m, w)"
| "connect sdk processEnv (entry # entries) m w =
     (case tryConnect sdk processEnv entry m w of
        (Inl e, m', w') \<Rightarrow> connect sdk processEnv entries m' w'
      | (Inr _, m', w') \<Rightarrow> connect sdk processEnv entries m' w')"

subsection \<open>getAllTools\<close>

definition getAllTools :: "MCPClientManager \<Rightarrow> MCPTool list" where
  "getAllTools m = concat (map tools (servers m))"

subsection \<open>callTool\<close>

text \<open>
  The caller's arguments object lives in a heap of objects addressed by references, so
  that building a new object and updating one in place are different things.
  \<open>alloc\<close> is an object literal: a fresh reference holding the given object.
\<close>

record Heap =
  cells :: "nat \<Rightarrow> ToolArgs"
  top :: nat

definition alloc :: "Heap \<Rightarrow> ToolArgs \<Rightarrow> nat \<times> Heap" where
  "alloc hp v = (top hp, hp\<lparr>cells := (cells hp)(top hp := v), top := Suc (top hp)\<rparr>)"

text \<open>
  Lines 83 to 93: the \<open>org:\<close> qualifiers for GitHub searches. The result is the reference
  that the local variable \<open>args\<close> holds afterwards, and the heap.
\<close>

definition orgFilter :: "string list \<Rightarrow> string" where
  "orgFilter orgList = join '' '' (map (\<lambda>org. ''org:'' @ org) orgList)"

definition injectOrgs ::
  "MCPClientManager \<Rightarrow> string \<Rightarrow> string \<Rightarrow> nat \<Rightarrow> Heap \<Rightarrow> nat \<times> Heap" where
  "injectOrgs m serverName toolName a hp =
     (if serverName = ''github'' \<and> toolName = ''search_issues'' \<and> length (githubOrgs m) > 0
      then (case args_q (cells hp a) of
              None \<Rightarrow> (a, hp)
            | Some qs \<Rightarrow>
                if qs \<noteq> [] \<and> \<not> includes_str qs ''org:''
                then alloc hp ((cells hp a)\<lparr>args_q := Some (orgFilter (githubOrgs m) @ '' '' @ qs)\<rparr>)
                else (a, hp))
      else (a, hp))"

definition callTool ::
  "'w Sdk \<Rightarrow> MCPClientManager \<Rightarrow> string \<Rightarrow> nat \<Rightarrow> Heap \<Rightarrow> 'w
     \<Rightarrow> (error + jsval) \<times> MCPClientManager \<times> Heap \<times> 'w" where
  "callTool sdk m n a hp w =
     (case splitQualified n of
        Inl e \<Rightarrow> (Inl e, m, hp, w)
      | Inr (serverName, toolName) \<Rightarrow>
     (case find (\<lambda>s. server_name s = serverName) (servers m) of
        None \<Rightarrow> (Inl (UnknownServer serverName), m, hp, w)
      | Some server \<Rightarrow>
     (case injectOrgs m serverName toolName a hp of
        (a', hp') \<Rightarrow>
     (case call_tool sdk (client server) toolName (cells hp' a') w of
        (r, w') \<Rightarrow> (r, m, hp', w')))))"

subsection \<open>disconnect\<close>

text \<open>The loop over \<open>this.servers\<close>: each close is awaited, a rejection is dropped.\<close>

fun closeAll :: "'w Sdk \<Rightarrow> ConnectedServer list \<Rightarrow> 'w \<Rightarrow> (error + unit) \<times> 'w" where
  "closeAll sdk [] w = (Inr (), w)"
| "closeAll sdk (server # rest) w =
     (case transport_close sdk (transport server) w of
        (Inl e, w') \<Rightarrow> closeAll sdk rest w'
      | (Inr _, w') \<Rightarrow> closeAll sdk rest w')"

definition disconnect ::
  "'w Sdk \<Rightarrow> MCPClientManager \<Rightarrow> 'w \<Rightarrow> (error + unit) \<times> MCPClientManager \<times> 'w" where
  "disconnect sdk m w =
     (case closeAll sdk (servers m) w of
        (Inl e, w') \<Rightarrow> (Inl e, m, w')
      | (Inr _, w') \<Rightarrow> (Inr (), m\<lparr>servers := []\<rparr>, w'))"

section \<open>A scripted SDK for concrete runs\<close>

text \<open>
  An instance of the SDK record whose world is the log of the operations performed and a
  handle counter. Which \<open>client.connect\<close>, \<open>listTools\<close> and \<open>close\<close> calls reject, and
  what each client lists, is given by handle. Remote tools answer \<open>null\<close>.
\<close>

datatype sdk_event =
    NewTransport handle string
  | NewClient handle
  | Connect handle handle
  | ListTools handle
  | CallTool handle string ToolArgs
  | Close handle

record ScriptedWorld =
  next_handle :: handle
  events :: "sdk_event list"

definition emit :: "sdk_event \<Rightarrow> ScriptedWorld \<Rightarrow> ScriptedWorld" where
  "emit ev w = w\<lparr>events := events w @ [ev]\<rparr>"

definition scriptedSdk ::
  "(handle \<Rightarrow> bool) \<Rightarrow> (handle \<Rightarrow> bool) \<Rightarrow> (handle \<Rightarrow> bool) \<Rightarrow> (handle \<Rightarrow> RawTool list)
     \<Rightarrow> ScriptedWorld Sdk" where
  "scriptedSdk failConnect failList failClose catalog =
     \<lparr>new_transport = (\<lambda>cmd as ev w.
        (next_handle w, emit (NewTransport (next_handle w) cmd) (w\<lparr>next_handle := Suc (next_handle w)\<rparr>))),
      new_client = (\<lambda>w.
        (next_handle w, emit (NewClient (next_handle w)) (w\<lparr>next_handle := Suc (next_handle w)\<rparr>))),
      client_connect = (\<lambda>c t w.
        (if failConnect c then Inl (SdkFailure ''spawn failed'') else Inr (), emit (Connect c t) w)),
      list_tools = (\<lambda>c w.
        (if failList c then Inl (SdkFailure ''tools/list failed'') else Inr (catalog c),
         emit (ListTools c) w)),
      call_tool = (\<lambda>c n a w. (Inr JNull, emit (CallTool c n a) w)),
      transport_close = (\<lambda>t w.
        (if failClose t then Inl (SdkFailure ''close failed'') else Inr (), emit (Close t) w))\<rparr>"

definition world0 :: ScriptedWorld where
  "world0 = \<lparr>next_handle = 0, events = []\<rparr>"

definition rawTool :: "string \<Rightarrow> RawTool" where
  "rawTool n = \<lparr>raw_name = n, raw_description = None, inputSchema = JObj []\<rparr>"

definition entryOf :: "string \<Rightarrow> ServerEntry" where
  "entryOf n = \<lparr>name = n, command = ''npx'', args = [], env = []\<rparr>"

definition heap0 :: "ToolArgs \<Rightarrow> Heap" where
  "heap0 v = \<lparr>cells = (\<lambda>_. v), top = 1\<rparr>"

section \<open>What connect is expected to do, in the words of the specification\<close>

text \<open>
  Every descriptor is attempted, one after the other, whatever happened to the earlier
  ones: \<open>attemptAll\<close> gives the outcome of each attempt, in order, and the world after the
  last. \<open>survivors\<close> keeps one connected server per successful attempt.
\<close>

fun attemptAll ::
  "'w Sdk \<Rightarrow> (string \<times> string) list \<Rightarrow> ServerEntry list \<Rightarrow> 'w
     \<Rightarrow> (error + (handle \<times> handle \<times> RawTool list)) list \<times> 'w" where
  "attemptAll sdk processEnv [] w = ([], w)"
| "attemptAll sdk processEnv (entry # entries) w =
     (case startServer sdk processEnv entry w of
        (r, w') \<Rightarrow>
          (case attemptAll sdk processEnv entries w' of
             (rs, w'') \<Rightarrow> (r # rs, w'')))"

fun survivors ::
  "ServerEntry list \<Rightarrow> (error + (handle \<times> handle \<times> RawTool list)) list \<Rightarrow> ConnectedServer list" where
  "survivors (entry # entries) (Inr r # rs) = connected entry r # survivors entries rs"
| "survivors (entry # entries) (Inl e # rs) = survivors entries rs"
| "survivors _ _ = []"

text \<open>The catalogs that discovery returned, qualified, server after server.\<close>

fun catalogs ::
  "ServerEntry list \<Rightarrow> (error + (handle \<times> handle \<times> RawTool list)) list \<Rightarrow> MCPTool list" where
  "catalogs (entry # entries) (Inr (c, t, raws) # rs) =
     map (toMCPTool entry) raws @ catalogs entries rs"
| "catalogs (entry # entries) (Inl e # rs) = catalogs entries rs"
| "catalogs _ _ = []"

section \<open>Scope qualifiers, in the words of the specification\<close>

text \<open>
  A search query is a sequence of terms separated by spaces (\<open>split(" ")\<close>). A scope
  qualifier is a term that begins with one of the prefixes by which a GitHub search is
  scoped; an organization qualifier is one that begins with \<open>org:\<close>.
\<close>

fun searchTerms :: "string \<Rightarrow> string list" where
  "searchTerms [] = [[]]"
| "searchTerms (c # cs) =
     (if c = CHR '' '' then [] # searchTerms cs
      else (case searchTerms cs of
              [] \<Rightarrow> [[c]]
            | w # ws \<Rightarrow> (c # w) # ws))"

definition scopePrefixes :: "string list" where
  "scopePrefixes = [''org:'', ''user:'', ''repo:'']"

definition hasScopeQualifier :: "string \<Rightarrow> bool" where
  "hasScopeQualifier query =
     list_ex (\<lambda>w. list_ex (\<lambda>p. prefix p w) scopePrefixes) (searchTerms query)"

definition hasOrgQualifier :: "string \<Rightarrow> bool" where
  "hasOrgQualifier query = list_ex (prefix ''org:'') (searchTerms query)"

section \<open>The agent loop\<close>

text \<open>
  Modelled from the spec: the agent loop (\<open>runAgent\<close> in \<open>llm/agent\<close>) and the language
  model provider are not among the source files; only the call
  \<open>runAgent(provider, mcpClient, systemPrompt, userMessage)\<close> is. What follows is the state
  machine of section 4.2 of the specification.

  The provider is a stateless function of the system prompt, the conversation so far and
  the tool catalog. Its answer is \<open>FinalText\<close> or \<open>ToolUseTurn\<close>; a tool-use turn may
  carry assistant text besides its requests, which is where a "last observed assistant
  text" can come from before the loop is done. Executing one request (write-scope policy,
  then \<open>Manager.callTool\<close>, the failure of a call becoming its result) is a parameter
  \<open>exec\<close> over the state \<open>'s\<close> of whatever executes the tools.
\<close>

datatype role = User | Assistant | ToolResult

record ToolInvocationRequest =
  request_name :: string
  request_arguments :: ToolArgs

datatype invocation_outcome = Payload jsval | FailureReason string

record ToolInvocationResult =
  result_name :: string
  result_outcome :: invocation_outcome

datatype content =
    Text string
  | ToolRequests "string option" "ToolInvocationRequest list"
  | ToolOutcome ToolInvocationResult

record Message =
  role :: role
  content :: content

datatype response =
    FinalText string
  | ToolUseTurn "string option" "ToolInvocationRequest list"

datatype phase = AWAITING_MODEL | EXECUTING_TOOLS | DONE | ABORTED_LIMIT

datatype terminationReason = completed | iterationLimit

type_synonym provider = "string \<Rightarrow> Message list \<Rightarrow> MCPTool list \<Rightarrow> response"

type_synonym 's executor = "ToolInvocationRequest \<Rightarrow> 's \<Rightarrow> ToolInvocationResult \<times> 's"

text \<open>
  Modelled from the spec: the state of one run. \<open>providerCalls\<close> counts the invocations of
  the provider, one per iteration of the loop; \<open>iterationCounter\<close> is the specification's
  counter, incremented after the tool calls of a turn have resolved.
\<close>

record 's AgentState =
  phase :: phase
  conversation :: "Message list"
  iterationCounter :: nat
  pending :: "ToolInvocationRequest list"
  providerCalls :: nat
  backend :: 's

text \<open>Modelled from the spec: the default bound on the iterations of a run.\<close>

definition defaultMaxIterations :: nat where
  "defaultMaxIterations = 20"

text \<open>
  Modelled from the spec: every requested call is executed, in emission order, and each
  outcome is kept; a failing call does not stop the turn.
\<close>

fun executeAll ::
  "'s executor \<Rightarrow> ToolInvocationRequest list \<Rightarrow> 's \<Rightarrow> ToolInvocationResult list \<times> 's" where
  "executeAll exec [] s = ([], s)"
| "executeAll exec (req # reqs) s =
     (case exec req s of
        (res, s') \<Rightarrow>
          (case executeAll exec reqs s' of
             (ress, s'') \<Rightarrow> (res # ress, s'')))"

text \<open>
  Modelled from the spec: one transition of the machine. After the tool calls of a turn
  the counter is incremented, and the bound is checked before looping back: when a further
  increment would exceed \<open>N\<close> the machine goes to \<open>ABORTED_LIMIT\<close> instead of
  \<open>AWAITING_MODEL\<close>. This is the reading under which the counter stays within \<open>N\<close> and a
  provider that always asks for tools is invoked \<open>N\<close> times, as section 8 says.
\<close>

definition step ::
  "provider \<Rightarrow> 's executor \<Rightarrow> string \<Rightarrow> MCPTool list \<Rightarrow> nat \<Rightarrow> 's AgentState \<Rightarrow> 's AgentState" where
  "step prov exec systemPrompt toolset N st =
     (case phase st of
        AWAITING_MODEL \<Rightarrow>
          (case prov systemPrompt (conversation st) toolset of
             FinalText t \<Rightarrow>
               st\<lparr>phase := DONE,
                  conversation := conversation st @ [\<lparr>role = Assistant, content = Text t\<rparr>],
                  providerCalls := Suc (providerCalls st)\<rparr>
           | ToolUseTurn txt reqs \<Rightarrow>
               st\<lparr>phase := EXECUTING_TOOLS,
                  conversation := conversation st
                     @ [\<lparr>role = Assistant, content = ToolRequests txt reqs\<rparr>],
                  pending := reqs,
                  providerCalls := Suc (providerCalls st)\<rparr>)
      | EXECUTING_TOOLS \<Rightarrow>
          (case executeAll exec (pending st) (backend st) of
             (results, s') \<Rightarrow>
               st\<lparr>phase := (if Suc (Suc (iterationCounter st)) > N
                             then ABORTED_LIMIT else AWAITING_MODEL),
                  conversation := conversation st
                     @ map (\<lambda>r. \<lparr>role = ToolResult, content = ToolOutcome r\<rparr>) results,
                  iterationCounter := Suc (iterationCounter st),
                  pending := [],
                  backend := s'\<rparr>)
      | DONE \<Rightarrow> st
      | ABORTED_LIMIT \<Rightarrow> st)"

text \<open>Modelled from the spec: the two terminal states of the machine.\<close>

definition terminal :: "'s AgentState \<Rightarrow> bool" where
  "terminal st = (phase st = DONE \<or> phase st = ABORTED_LIMIT)"

text \<open>A bound on the number of transitions a state still has before it is terminal.\<close>

definition remaining :: "nat \<Rightarrow> 's AgentState \<Rightarrow> nat" where
  "remaining N st =
     (case phase st of
        AWAITING_MODEL \<Rightarrow> 2 * (N - iterationCounter st) + 2
      | EXECUTING_TOOLS \<Rightarrow> 2 * (N - iterationCounter st) + 1
      | DONE \<Rightarrow> 0
      | ABORTED_LIMIT \<Rightarrow> 0)"

text \<open>Modelled from the spec: the machine is run until it reaches a terminal state.\<close>

function run ::
  "provider \<Rightarrow> 's executor \<Rightarrow> string \<Rightarrow> MCPTool list \<Rightarrow> nat \<Rightarrow> 's AgentState \<Rightarrow> 's AgentState" where
  "run prov exec systemPrompt toolset N st =
     (if terminal st then st
      else run prov exec systemPrompt toolset N (step prov exec systemPrompt toolset N st))"
  by pat_completeness auto
termination
  by (relation "measure (\<lambda>(prov, exec, systemPrompt, toolset, N, st). remaining N st)")
     (auto simp: terminal_def remaining_def step_def
           split: phase.splits response.splits prod.splits)

declare run.simps [simp del]

text \<open>
  Modelled from the spec: the texts of the assistant's messages in a conversation, oldest
  first; the last of them is the last observed assistant text.
\<close>

fun assistantTexts :: "Message list \<Rightarrow> string list" where
  "assistantTexts [] = []"
| "assistantTexts (msg # msgs) =
     (case (role msg, content msg) of
        (Assistant, Text t) \<Rightarrow> t # assistantTexts msgs
      | (Assistant, ToolRequests (Some t) reqs) \<Rightarrow> t # assistantTexts msgs
      | _ \<Rightarrow> assistantTexts msgs)"

text \<open>
  Modelled from the spec: a run starts in \<open>AWAITING_MODEL\<close> with the user message as the
  whole conversation and the counter reset.
\<close>

definition initialState :: "string \<Rightarrow> 's \<Rightarrow> 's AgentState" where
  "initialState userMessage s0 =
     \<lparr>phase = AWAITING_MODEL,
      conversation = [\<lparr>role = User, content = Text userMessage\<rparr>],
      iterationCounter = 0, pending = [], providerCalls = 0, backend = s0\<rparr>"

text \<open>
  Modelled from the spec: the result of a run is one text and a termination reason. The
  text is the last assistant text, or the fallback when there is none.
\<close>

definition lastTextOr :: "string \<Rightarrow> string list \<Rightarrow> string" where
  "lastTextOr fallback texts = (if texts = [] then fallback else last texts)"

definition resultOf :: "string \<Rightarrow> 's AgentState \<Rightarrow> string \<times> terminationReason" where
  "resultOf fallback st =
     (lastTextOr fallback (assistantTexts (conversation st)),
      if phase st = DONE then completed else iterationLimit)"

text \<open>
  Modelled from the spec: \<open>run(systemPrompt, userMessage, manager, maxIterations)\<close>, with the
  provider, the tool executor, the catalog exposed to the model and the fallback text as
  further parameters.
\<close>

definition runAgent ::
  "provider \<Rightarrow> 's executor \<Rightarrow> string \<Rightarrow> string \<Rightarrow> MCPTool list \<Rightarrow> nat \<Rightarrow> string \<Rightarrow> 's
     \<Rightarrow> string \<times> terminationReason" where
  "runAgent prov exec systemPrompt userMessage toolset N fallback s0 =
     resultOf fallback (run prov exec systemPrompt toolset N (initialState userMessage s0))"

section \<open>Concrete inputs\<close>

text \<open>Configurations, managers, SDK scripts and providers used in the concrete runs below.\<close>

definition cfgEx :: Config where
  "cfgEx = \<lparr>github = \<lparr>github_enabled = True, github_token_env = ''GITHUB_TOKEN'', orgs = []\<rparr>,
            jira = \<lparr>jira_enabled = True, url = ''https://mcp.atlassian.com/v1/sse''\<rparr>,
            slack = \<lparr>slack_enabled = False, slack_token_env = ''SLACK_BOT_TOKEN'', channels = []\<rparr>\<rparr>"

text \<open>The GitHub token variable is named like a member of \<open>Object.prototype\<close>.\<close>

definition cfgInherited :: Config where
  "cfgInherited = cfgEx\<lparr>github := \<lparr>github_enabled = True, github_token_env = ''toString'',
                                     orgs = []\<rparr>\<rparr>"

definition plainSdk :: "ScriptedWorld Sdk" where
  "plainSdk = scriptedSdk (\<lambda>_. False) (\<lambda>_. False) (\<lambda>_. False) (\<lambda>_. [])"

text \<open>Discovery fails for the client with handle 3, the client of the second entry.\<close>

definition sdk3 :: "ScriptedWorld Sdk" where
  "sdk3 = scriptedSdk (\<lambda>_. False) (\<lambda>c. c = 3) (\<lambda>_. False) (\<lambda>_. [rawTool ''t''])"

text \<open>The first client lists two tools, every other client one.\<close>

definition sdkAB :: "ScriptedWorld Sdk" where
  "sdkAB = scriptedSdk (\<lambda>_. False) (\<lambda>_. False) (\<lambda>_. False)
     (\<lambda>c. if c = 1 then [rawTool ''tool1'', rawTool ''tool2''] else [rawTool ''tool1''])"

text \<open>Closing the transport with handle 0 fails.\<close>

definition sdkClose :: "ScriptedWorld Sdk" where
  "sdkClose = scriptedSdk (\<lambda>_. False) (\<lambda>_. False) (\<lambda>t. t = 0) (\<lambda>_. [])"

definition twoServers :: MCPClientManager where
  "twoServers =
     \<lparr>servers = [\<lparr>server_name = ''github'', client = 1, transport = 0, tools = []\<rparr>,
                 \<lparr>server_name = ''slack'', client = 5, transport = 4, tools = []\<rparr>],
      githubOrgs = []\<rparr>"

definition jiraManager :: MCPClientManager where
  "jiraManager = \<lparr>servers = [\<lparr>server_name = ''jira'', client = 1, transport = 0, tools = []\<rparr>],
                  githubOrgs = []\<rparr>"

definition githubManager :: MCPClientManager where
  "githubManager = \<lparr>servers = [\<lparr>server_name = ''github'', client = 1, transport = 0, tools = []\<rparr>],
                    githubOrgs = [''acme'', ''west'']\<rparr>"

definition noArgs :: ToolArgs where
  "noArgs = \<lparr>args_q = None, args_rest = []\<rparr>"

definition queryArgs :: "string \<Rightarrow> ToolArgs" where
  "queryArgs s = \<lparr>args_q = Some s, args_rest = [(''per_page'', JNum 50)]\<rparr>"

definition alwaysTools :: provider where
  "alwaysTools sp conv ts =
     ToolUseTurn None [\<lparr>request_name = ''github__search_issues'',
                       request_arguments = \<lparr>args_q = Some ''bug'', args_rest = []\<rparr>\<rparr>]"

definition answers :: "string \<Rightarrow> provider" where
  "answers t sp conv ts = FinalText t"

definition failingExec :: "unit executor" where
  "failingExec req s =
     (\<lparr>result_name = request_name req, result_outcome = FailureReason ''no server''\<rparr>, s)"

text \<open>
  The invariant of a run whose provider always asks for tools: the provider has been
  invoked once per completed turn, plus once when the machine is executing tools.
\<close>

definition onTrack :: "nat \<Rightarrow> 's AgentState \<Rightarrow> bool" where
  "onTrack N st =
     (case phase st of
        AWAITING_MODEL \<Rightarrow> iterationCounter st < N \<and> providerCalls st = iterationCounter st
      | EXECUTING_TOOLS \<Rightarrow> iterationCounter st < N \<and> providerCalls st = Suc (iterationCounter st)
      | ABORTED_LIMIT \<Rightarrow> iterationCounter st = N \<and> providerCalls st = N
      | DONE \<Rightarrow> False)"

section \<open>Properties of the qualified-name round trip\<close>

lemma indexOf_append_sep:
  assumes "\<not> includes_str s ''__''" and "s = [] \<or> last s \<noteq> CHR ''_''"
  shows "indexOf (s @ ''__'' @ r) ''__'' = Some (length s)"
  using assms
proof (induction s)
  case Nil
  then show ?case by simp
next
  case (Cons c cs)
  from Cons.prems(1) have np: "\<not> prefix ''__'' (c # cs)" and ni: "\<not> includes_str cs ''__''"
    by (auto simp: includes_str_def split: if_splits)
  have nq: "\<not> prefix ''__'' ((c # cs) @ ''__'' @ r)"
  proof (cases cs)
    case Nil
    with Cons.prems(2) show ?thesis by simp
  next
    case (Cons d ds)
    with np show ?thesis by simp
  qed
  from Cons.prems(2) have "cs = [] \<or> last cs \<noteq> CHR ''_''"
    by (auto split: if_splits)
  with ni Cons.IH have "indexOf (cs @ ''__'' @ r) ''__'' = Some (length cs)"
    by simp
  with nq show ?case by simp
qed

text \<open>
  C1, as the code behaves. For every server name that contains no \<open>"__"\<close> and does not
  end in an underscore, and every raw tool name, splitting the qualified name at the first
  \<open>"__"\<close> gives back exactly the pair (server name, raw tool name).
\<close>

theorem splitQualified_qualifiedName:
  assumes "\<not> includes_str serverName ''__''"
    and "serverName = [] \<or> last serverName \<noteq> CHR ''_''"
  shows "splitQualified (qualifiedName serverName rawName) = Inr (serverName, rawName)"
  using indexOf_append_sep [OF assms, of rawName]
  by (simp add: splitQualified_def qualifiedName_def)

theorem splitQualified_qualifiedName_witness:
  "\<not> includes_str ''github'' ''__''
   \<and> (''github'' = [] \<or> last ''github'' \<noteq> CHR ''_'')
   \<and> splitQualified (qualifiedName ''github'' ''search__issues'')
       = Inr (''github'', ''search__issues'')"
proof -
  have a: "\<not> includes_str ''github'' ''__''" by (simp add: includes_str_def)
  have b: "''github'' = [] \<or> last ''github'' \<noteq> CHR ''_''" by simp
  from a b splitQualified_qualifiedName [OF a b, of "''search__issues''"]
  show ?thesis by simp
qed

text \<open>
  C1 as stated fails: the server name \<open>a_\<close> contains no \<open>"__"\<close>, yet \<open>a___x\<close> is split at
  index 1 into \<open>a\<close> and \<open>_x\<close>.
\<close>

theorem splitQualified_trailing_underscore_counterexample:
  "\<not> includes_str ''a_'' ''__''
   \<and> splitQualified (qualifiedName ''a_'' ''x'') = Inr (''a'', ''_x'')
   \<and> splitQualified (qualifiedName ''a_'' ''x'') \<noteq> Inr (''a_'', ''x'')"
  by (simp add: includes_str_def splitQualified_def qualifiedName_def)

section \<open>Properties of the registry\<close>

text \<open>
  For a name that is not inherited, \<open>process.env[k]\<close> is falsy exactly when the variable
  is unset or empty.
\<close>

lemma falsy_envLookup:
  "k \<notin> set objectPrototypeNames \<Longrightarrow>
     falsy (envLookup processEnv k) \<longleftrightarrow>
       (map_of processEnv k = None \<or> map_of processEnv k = Some [])"
  by (simp add: envLookup_def split: option.splits)

lemma getEnabledServers_fails_iff:
  "isl (getEnabledServers config processEnv) \<longleftrightarrow>
     (github_enabled (github config)
        \<and> falsy (envLookup processEnv (github_token_env (github config))))
     \<or> (slack_enabled (slack config)
        \<and> falsy (envLookup processEnv (slack_token_env (slack config))))"
  by (auto simp: getEnabledServers_def requireToken_def Let_def
        split: sum.splits option.splits if_splits)

lemma getEnabledServers_names:
  "getEnabledServers config processEnv = Inr ss \<Longrightarrow>
     map name ss =
       (if github_enabled (github config) then [''github''] else [])
       @ (if jira_enabled (jira config) then [''jira''] else [])
       @ (if slack_enabled (slack config) then [''slack''] else [])"
  by (auto simp: getEnabledServers_def requireToken_def githubEntry_def jiraEntry_def
        slackEntry_def Let_def split: sum.splits option.splits if_splits)

text \<open>
  With the variable named \<open>toString\<close> and no such variable set, the lookup gives the
  inherited member, which is truthy: nothing is thrown and the entry carries that member.
\<close>

lemma getEnabledServers_inherited_name:
  "getEnabledServers cfgInherited [] =
     Inr [githubEntry (InheritedMember ''toString''),
          jiraEntry ''https://mcp.atlassian.com/v1/sse'']"
  by (simp add: cfgInherited_def cfgEx_def getEnabledServers_def requireToken_def
        envLookup_def objectPrototypeNames_def)

text \<open>
  C10, as the code behaves. When \<open>getEnabledServers\<close> returns, the entries are the enabled
  integrations in the order github, jira, slack, at most one each. Provided the token
  variable name of each enabled integration is not the name of a member inherited from
  \<open>Object.prototype\<close>, it fails if and only if the GitHub or the Slack integration is
  enabled while its token variable is unset or holds the empty string; the Jira entry needs
  no token.
\<close>

theorem getEnabledServers_order_and_failure:
  "((github_enabled (github config) \<longrightarrow>
        github_token_env (github config) \<notin> set objectPrototypeNames)
    \<and> (slack_enabled (slack config) \<longrightarrow>
        slack_token_env (slack config) \<notin> set objectPrototypeNames) \<longrightarrow>
    (isl (getEnabledServers config processEnv) \<longleftrightarrow>
       (github_enabled (github config)
          \<and> (map_of processEnv (github_token_env (github config)) = None
             \<or> map_of processEnv (github_token_env (github config)) = Some []))
       \<or> (slack_enabled (slack config)
          \<and> (map_of processEnv (slack_token_env (slack config)) = None
             \<or> map_of processEnv (slack_token_env (slack config)) = Some []))))
   \<and> (\<forall>ss. getEnabledServers config processEnv = Inr ss \<longrightarrow>
         map name ss =
           (if github_enabled (github config) then [''github''] else [])
           @ (if jira_enabled (jira config) then [''jira''] else [])
           @ (if slack_enabled (slack config) then [''slack''] else []))"
proof (intro conjI impI allI)
  assume h: "(github_enabled (github config) \<longrightarrow>
        github_token_env (github config) \<notin> set objectPrototypeNames)
    \<and> (slack_enabled (slack config) \<longrightarrow>
        slack_token_env (slack config) \<notin> set objectPrototypeNames)"
  show "isl (getEnabledServers config processEnv) \<longleftrightarrow>
       (github_enabled (github config)
          \<and> (map_of processEnv (github_token_env (github config)) = None
             \<or> map_of processEnv (github_token_env (github config)) = Some []))
       \<or> (slack_enabled (slack config)
          \<and> (map_of processEnv (slack_token_env (slack config)) = None
             \<or> map_of processEnv (slack_token_env (slack config)) = Some []))"
    unfolding getEnabledServers_fails_iff
    using h falsy_envLookup [of "github_token_env (github config)" processEnv]
      falsy_envLookup [of "slack_token_env (slack config)" processEnv]
    by blast
next
  fix ss
  assume "getEnabledServers config processEnv = Inr ss"
  then show "map name ss =
           (if github_enabled (github config) then [''github''] else [])
           @ (if jira_enabled (jira config) then [''jira''] else [])
           @ (if slack_enabled (slack config) then [''slack''] else [])"
    by (rule getEnabledServers_names)
qed

theorem getEnabledServers_order_and_failure_witness:
  "github_enabled (github cfgEx)
   \<and> github_token_env (github cfgEx) \<notin> set objectPrototypeNames
   \<and> \<not> slack_enabled (slack cfgEx)
   \<and> map_of [] (github_token_env (github cfgEx)) = (None :: string option)
   \<and> isl (getEnabledServers cfgEx [])
   \<and> map_of [(''GITHUB_TOKEN'', [])] (github_token_env (github cfgEx)) = Some []
   \<and> isl (getEnabledServers cfgEx [(''GITHUB_TOKEN'', [])])
   \<and> map_of [(''GITHUB_TOKEN'', ''x'')] (github_token_env (github cfgEx)) = Some ''x''
   \<and> getEnabledServers cfgEx [(''GITHUB_TOKEN'', ''x'')]
      = Inr [githubEntry (EnvString ''x''), jiraEntry ''https://mcp.atlassian.com/v1/sse'']
   \<and> map name [githubEntry (EnvString ''x''), jiraEntry ''https://mcp.atlassian.com/v1/sse'']
      = [''github'', ''jira'']"
proof -
  have a: "github_enabled (github cfgEx)" by (simp add: cfgEx_def)
  have b: "github_token_env (github cfgEx) \<notin> set objectPrototypeNames"
    by (simp add: cfgEx_def objectPrototypeNames_def)
  have c: "\<not> slack_enabled (slack cfgEx)" by (simp add: cfgEx_def)
  have d1: "map_of [] (github_token_env (github cfgEx)) = (None :: string option)" by simp
  have d2: "map_of [(''GITHUB_TOKEN'', [])] (github_token_env (github cfgEx)) = Some []"
    by (simp add: cfgEx_def)
  have d3: "map_of [(''GITHUB_TOKEN'', ''x'')] (github_token_env (github cfgEx)) = Some ''x''"
    by (simp add: cfgEx_def)
  have e: "getEnabledServers cfgEx [(''GITHUB_TOKEN'', ''x'')]
      = Inr [githubEntry (EnvString ''x''), jiraEntry ''https://mcp.atlassian.com/v1/sse'']"
    by (simp add: cfgEx_def getEnabledServers_def requireToken_def envLookup_def)
  from a b c d1 getEnabledServers_order_and_failure [of cfgEx "[]"]
  have f1: "isl (getEnabledServers cfgEx [])" by blast
  from a b c d2 getEnabledServers_order_and_failure [of cfgEx "[(''GITHUB_TOKEN'', [])]"]
  have f2: "isl (getEnabledServers cfgEx [(''GITHUB_TOKEN'', [])])" by blast
  from e getEnabledServers_order_and_failure [of cfgEx "[(''GITHUB_TOKEN'', ''x'')]"]
  have g: "map name [githubEntry (EnvString ''x''), jiraEntry ''https://mcp.atlassian.com/v1/sse'']
      = [''github'', ''jira'']"
    by (simp add: cfgEx_def)
  from a b c d1 d2 d3 e f1 f2 g show ?thesis by blast
qed

text \<open>
  C10 as stated fails: with \<open>GITHUB_TOKEN\<close> set to the empty string the variable is set,
  Slack is disabled, and \<open>getEnabledServers\<close> still throws.
\<close>

theorem getEnabledServers_empty_token_counterexample:
  "map_of [(''GITHUB_TOKEN'', [])] (github_token_env (github cfgEx)) \<noteq> None
   \<and> \<not> slack_enabled (slack cfgEx)
   \<and> getEnabledServers cfgEx [(''GITHUB_TOKEN'', [])]
      = Inl (TokenNotSet ''GitHub'' ''GITHUB_TOKEN'')"
  by (simp add: cfgEx_def getEnabledServers_def requireToken_def envLookup_def)

section \<open>Properties of connect and getAllTools\<close>

lemma connect_attemptAll:
  "connect sdk pe es m w =
     (Inr (), m\<lparr>servers := servers m @ survivors es (fst (attemptAll sdk pe es w))\<rparr>,
      snd (attemptAll sdk pe es w))"
proof (induction es arbitrary: m w)
  case Nil
  then show ?case by simp
next
  case (Cons entry es)
  obtain r w' where s: "startServer sdk pe entry w = (r, w')"
    by (cases "startServer sdk pe entry w")
  obtain rs w'' where a: "attemptAll sdk pe es w' = (rs, w'')"
    by (cases "attemptAll sdk pe es w'")
  show ?case
  proof (cases r)
    case (Inl e)
    with s a Cons.IH [of m w'] show ?thesis
      by (simp add: tryConnect_def)
  next
    case (Inr x)
    with s a Cons.IH [of "m\<lparr>servers := servers m @ [connected entry x]\<rparr>" w'] show ?thesis
      by (simp add: tryConnect_def)
  qed
qed

lemma length_attemptAll: "length (fst (attemptAll sdk pe es w)) = length es"
  by (induction es arbitrary: w) (simp_all add: split_beta)

lemma tools_survivors: "concat (map tools (survivors es rs)) = catalogs es rs"
  by (induction es rs rule: catalogs.induct) (simp_all add: connected_def)

lemma attemptAll_sdk3:
  "attemptAll sdk3 [] [entryOf ''a'', entryOf ''b'', entryOf ''c''] world0 =
     ([Inr (1, 0, [rawTool ''t'']), Inl (SdkFailure ''tools/list failed''),
       Inr (5, 4, [rawTool ''t''])],
      \<lparr>next_handle = 6,
       events = [NewTransport 0 ''npx'', NewClient 1, Connect 1 0, ListTools 1,
                 NewTransport 2 ''npx'', NewClient 3, Connect 3 2, ListTools 3,
                 NewTransport 4 ''npx'', NewClient 5, Connect 5 4, ListTools 5]\<rparr>)"
  by (simp add: sdk3_def scriptedSdk_def entryOf_def world0_def startServer_def emit_def
        spread_def)

lemma attemptAll_sdkAB:
  "fst (attemptAll sdkAB [] [entryOf ''A'', entryOf ''B''] world0) =
     [Inr (1, 0, [rawTool ''tool1'', rawTool ''tool2'']), Inr (3, 2, [rawTool ''tool1''])]"
  by (simp add: sdkAB_def scriptedSdk_def entryOf_def world0_def startServer_def emit_def
        spread_def)

text \<open>
  C3. For every list of descriptors \<open>connect\<close> returns normally. Each descriptor is
  attempted, in order, whatever happened to the earlier ones: the world after \<open>connect\<close>
  is the world after all the attempts, and the manager has gained exactly one connected
  server per successful attempt, in order; a failed attempt (process start or discovery)
  adds none.
\<close>

theorem connect_never_raises:
  "fst (connect sdk pe es m w) = Inr ()
   \<and> length (fst (attemptAll sdk pe es w)) = length es
   \<and> servers (fst (snd (connect sdk pe es m w)))
       = servers m @ survivors es (fst (attemptAll sdk pe es w))
   \<and> snd (snd (connect sdk pe es m w)) = snd (attemptAll sdk pe es w)"
  by (simp add: connect_attemptAll length_attemptAll)

text \<open>
  Three descriptors, discovery failing for the second after its process has started:
  exactly the first and the third end up connected, and the third was started after the
  failure.
\<close>

theorem connect_never_raises_witness:
  "fst (connect sdk3 [] [entryOf ''a'', entryOf ''b'', entryOf ''c''] (newManager []) world0)
     = Inr ()
   \<and> map server_name
       (servers (fst (snd (connect sdk3 [] [entryOf ''a'', entryOf ''b'', entryOf ''c'']
          (newManager []) world0))))
     = [''a'', ''c'']
   \<and> events (snd (snd (connect sdk3 [] [entryOf ''a'', entryOf ''b'', entryOf ''c'']
          (newManager []) world0)))
     = [NewTransport 0 ''npx'', NewClient 1, Connect 1 0, ListTools 1,
        NewTransport 2 ''npx'', NewClient 3, Connect 3 2, ListTools 3,
        NewTransport 4 ''npx'', NewClient 5, Connect 5 4, ListTools 5]"
  using connect_never_raises
    [of sdk3 "[]" "[entryOf ''a'', entryOf ''b'', entryOf ''c'']" "newManager []" world0,
     unfolded attemptAll_sdk3]
  by (simp add: newManager_def connected_def entryOf_def del: connect.simps)

text \<open>
  C7. After one \<open>connect\<close> on a new manager, \<open>getAllTools\<close> is the concatenation of the
  catalogs of the servers that connected, in connection order, each in the order discovery
  returned it. \<open>getAllTools\<close> is a function of the manager's server list alone and returns
  nothing but the list: it changes no state, and calling it again gives the same list.
\<close>

theorem getAllTools_after_connect:
  "getAllTools (fst (snd (connect sdk pe es (newManager orgList) w)))
     = catalogs es (fst (attemptAll sdk pe es w))
   \<and> getAllTools m = concat (map tools (servers m))"
  by (simp add: connect_attemptAll getAllTools_def newManager_def tools_survivors)

text \<open>Server A with two tools, then server B with one.\<close>

theorem getAllTools_after_connect_witness:
  "map tool_name (getAllTools (fst (snd (connect sdkAB [] [entryOf ''A'', entryOf ''B'']
      (newManager []) world0))))
     = [''A__tool1'', ''A__tool2'', ''B__tool1'']"
  using getAllTools_after_connect
    [of sdkAB "[]" "[entryOf ''A'', entryOf ''B'']" "[]" world0 "newManager []",
     unfolded attemptAll_sdkAB]
  by (simp add: entryOf_def rawTool_def toMCPTool_def qualifiedName_def del: connect.simps)

section \<open>Properties of disconnect\<close>

lemma closeAll_foldl:
  "closeAll sdk ss w = (Inr (), foldl (\<lambda>w' s. snd (transport_close sdk (transport s) w')) w ss)"
  by (induction ss arbitrary: w) (auto split: prod.splits sum.splits)

text \<open>
  C8. \<open>disconnect\<close> returns normally. The close of every live transport is attempted, in
  order, whether or not earlier ones failed, and afterwards the manager has no server.
  \<open>getAllTools\<close> is then empty, and a second \<open>disconnect\<close> changes neither the manager nor
  the world.
\<close>

theorem disconnect_best_effort:
  "disconnect sdk m w =
     (Inr (), m\<lparr>servers := []\<rparr>,
      foldl (\<lambda>w' s. snd (transport_close sdk (transport s) w')) w (servers m))
   \<and> servers (fst (snd (disconnect sdk m w))) = []
   \<and> getAllTools (fst (snd (disconnect sdk m w))) = []
   \<and> disconnect sdk (fst (snd (disconnect sdk m w))) w2
       = (Inr (), fst (snd (disconnect sdk m w)), w2)"
  by (simp add: disconnect_def closeAll_foldl getAllTools_def)

text \<open>Two live servers, the close of the first failing: both closes are attempted.\<close>

theorem disconnect_best_effort_witness:
  "disconnect sdkClose twoServers world0
     = (Inr (), twoServers\<lparr>servers := []\<rparr>, \<lparr>next_handle = 0, events = [Close 0, Close 4]\<rparr>)
   \<and> fst (transport_close sdkClose 0 world0) = Inl (SdkFailure ''close failed'')"
  using disconnect_best_effort [of sdkClose twoServers world0 world0]
  by (simp add: sdkClose_def scriptedSdk_def twoServers_def world0_def emit_def)

section \<open>Properties of callTool\<close>

text \<open>
  C5. A name without \<open>"__"\<close> makes \<open>callTool\<close> fail with \<open>InvalidToolName\<close>, and a name whose
  server prefix matches no live connection makes it fail with \<open>UnknownServer\<close>. In both
  cases the manager, the heap and the world are returned as they were, whatever the SDK
  does when invoked: no SDK operation has been performed.
\<close>

theorem callTool_rejects_malformed:
  "(\<not> includes_str n ''__'' \<longrightarrow>
      callTool sdk m n a hp w = (Inl (InvalidToolName n), m, hp, w))
   \<and> (\<forall>serverName toolName.
        splitQualified n = Inr (serverName, toolName)
        \<and> (\<forall>s \<in> set (servers m). server_name s \<noteq> serverName) \<longrightarrow>
        callTool sdk m n a hp w = (Inl (UnknownServer serverName), m, hp, w))"
proof (intro conjI impI allI)
  assume "\<not> includes_str n ''__''"
  then show "callTool sdk m n a hp w = (Inl (InvalidToolName n), m, hp, w)"
    by (simp add: callTool_def includes_str_def splitQualified_def)
next
  fix serverName toolName
  assume h: "splitQualified n = Inr (serverName, toolName)
        \<and> (\<forall>s \<in> set (servers m). server_name s \<noteq> serverName)"
  then have "find (\<lambda>s. server_name s = serverName) (servers m) = None"
    by (simp add: find_None_iff)
  with h show "callTool sdk m n a hp w = (Inl (UnknownServer serverName), m, hp, w)"
    by (simp add: callTool_def)
qed

theorem callTool_rejects_malformed_witness:
  "\<not> includes_str ''search_issues'' ''__''
   \<and> callTool plainSdk jiraManager ''search_issues'' 0 (heap0 noArgs) world0
       = (Inl (InvalidToolName ''search_issues''), jiraManager, heap0 noArgs, world0)
   \<and> splitQualified ''slack__post'' = Inr (''slack'', ''post'')
   \<and> ''slack'' \<notin> set (map server_name (servers jiraManager))
   \<and> callTool plainSdk jiraManager ''slack__post'' 0 (heap0 noArgs) world0
       = (Inl (UnknownServer ''slack''), jiraManager, heap0 noArgs, world0)"
proof -
  have a: "\<not> includes_str ''search_issues'' ''__''" by (simp add: includes_str_def)
  have b: "splitQualified ''slack__post'' = Inr (''slack'', ''post'')"
    by (simp add: splitQualified_def)
  have c: "\<forall>s \<in> set (servers jiraManager). server_name s \<noteq> ''slack''"
    by (simp add: jiraManager_def)
  have d: "''slack'' \<notin> set (map server_name (servers jiraManager))"
    by (simp add: jiraManager_def)
  from a b c d
    callTool_rejects_malformed [of "''search_issues''" plainSdk jiraManager 0 "heap0 noArgs" world0]
    callTool_rejects_malformed [of "''slack__post''" plainSdk jiraManager 0 "heap0 noArgs" world0]
  show ?thesis by blast
qed

text \<open>
  C2, as the code behaves. \<open>callTool\<close> has no permission check. For every qualified name
  that resolves to the connected \<open>jira\<close> server, whatever the raw tool name, the raw name
  and the caller's arguments are passed unchanged to that server's client, and the outcome
  of \<open>callTool\<close> is the outcome of that remote call.
\<close>

theorem callTool_forwards_jira:
  assumes "splitQualified n = Inr (''jira'', toolName)"
    and "find (\<lambda>s. server_name s = ''jira'') (servers m) = Some server"
  shows "callTool sdk m n a hp w =
           (case call_tool sdk (client server) toolName (cells hp a) w of
              (r, w') \<Rightarrow> (r, m, hp, w'))"
  using assms by (simp add: callTool_def injectOrgs_def)

theorem callTool_forwards_jira_witness:
  "splitQualified ''jira__createJiraIssue'' = Inr (''jira'', ''createJiraIssue'')
   \<and> find (\<lambda>s. server_name s = ''jira'') (servers jiraManager)
       = Some \<lparr>server_name = ''jira'', client = 1, transport = 0, tools = []\<rparr>
   \<and> callTool plainSdk jiraManager ''jira__createJiraIssue'' 0 (heap0 noArgs) world0
       = (case call_tool plainSdk 1 ''createJiraIssue'' (cells (heap0 noArgs) 0) world0 of
            (r, w') \<Rightarrow> (r, jiraManager, heap0 noArgs, w'))"
proof -
  have a: "splitQualified ''jira__createJiraIssue'' = Inr (''jira'', ''createJiraIssue'')"
    by (simp add: splitQualified_def)
  have b: "find (\<lambda>s. server_name s = ''jira'') (servers jiraManager)
       = Some \<lparr>server_name = ''jira'', client = 1, transport = 0, tools = []\<rparr>"
    by (simp add: jiraManager_def)
  from a b callTool_forwards_jira [OF a b, of plainSdk 0 "heap0 noArgs" world0]
  show ?thesis by simp
qed

text \<open>
  C2 as stated fails: with the \<open>jira\<close> server connected, \<open>callTool\<close> on
  \<open>jira__createJiraIssue\<close> returns the remote result, and the remote tool
  \<open>createJiraIssue\<close> has been invoked.
\<close>

theorem callTool_jira_mutating_counterexample:
  "callTool plainSdk jiraManager ''jira__createJiraIssue'' 0 (heap0 noArgs) world0
     = (Inr JNull, jiraManager, heap0 noArgs,
        \<lparr>next_handle = 0, events = [CallTool 1 ''createJiraIssue'' noArgs]\<rparr>)"
  by (simp add: callTool_def splitQualified_def jiraManager_def plainSdk_def scriptedSdk_def
        injectOrgs_def heap0_def world0_def emit_def)

lemma includes_str_append:
  "prefix p s \<Longrightarrow> includes_str (a @ s) p"
proof (induction a)
  case Nil
  then show ?case by (cases s) (simp_all add: includes_str_def)
next
  case (Cons x a)
  then show ?case by (simp add: includes_str_def)
qed

lemma searchTerms_first:
  "\<exists>w ws b. searchTerms query = w # ws \<and> query = w @ b"
proof (induction query)
  case Nil
  show ?case by simp
next
  case (Cons c cs)
  then obtain w ws b where "searchTerms cs = w # ws" and "cs = w @ b" by blast
  then show ?case by (cases "c = CHR '' ''") auto
qed

lemma searchTerms_occurs:
  "w \<in> set (searchTerms query) \<Longrightarrow> \<exists>a b. query = a @ w @ b"
proof (induction query arbitrary: w)
  case Nil
  then show ?case by simp
next
  case (Cons c cs)
  obtain w0 ws b0 where f: "searchTerms cs = w0 # ws" and g: "cs = w0 @ b0"
    using searchTerms_first [of cs] by blast
  show ?case
  proof (cases "c = CHR '' ''")
    case True
    with Cons.prems have "w = [] \<or> w \<in> set (searchTerms cs)" by auto
    then show ?thesis
    proof
      assume "w = []"
      then have "c # cs = [] @ w @ (c # cs)" by simp
      then show ?thesis by blast
    next
      assume "w \<in> set (searchTerms cs)"
      with Cons.IH obtain a b where "cs = a @ w @ b" by blast
      then have "c # cs = (c # a) @ w @ b" by simp
      then show ?thesis by blast
    qed
  next
    case False
    with Cons.prems f have "w = c # w0 \<or> w \<in> set (searchTerms cs)" by auto
    then show ?thesis
    proof
      assume "w = c # w0"
      with g have "c # cs = [] @ w @ b0" by simp
      then show ?thesis by blast
    next
      assume "w \<in> set (searchTerms cs)"
      with Cons.IH obtain a b where "cs = a @ w @ b" by blast
      then have "c # cs = (c # a) @ w @ b" by simp
      then show ?thesis by blast
    qed
  qed
qed

lemma hasOrgQualifier_includes:
  assumes "hasOrgQualifier query"
  shows "includes_str query ''org:''"
proof -
  from assms obtain w where w: "w \<in> set (searchTerms query)" and p: "prefix ''org:'' w"
    by (auto simp: hasOrgQualifier_def list_ex_iff)
  from searchTerms_occurs [OF w] obtain a b where q: "query = a @ w @ b" by blast
  from p have "prefix ''org:'' (w @ b)" by (rule prefix_prefix)
  then have "includes_str (a @ (w @ b)) ''org:''" by (rule includes_str_append)
  with q show ?thesis by simp
qed

lemma hasOrgQualifier_scope: "hasOrgQualifier query \<Longrightarrow> hasScopeQualifier query"
  by (auto simp: hasOrgQualifier_def hasScopeQualifier_def scopePrefixes_def list_ex_iff)

lemma callTool_search_issues:
  assumes "splitQualified n = Inr (''github'', ''search_issues'')"
    and "find (\<lambda>s. server_name s = ''github'') (servers m) = Some server"
    and "githubOrgs m \<noteq> []"
    and "args_q (cells hp a) = Some qs"
  shows "(qs \<noteq> [] \<and> \<not> includes_str qs ''org:'' \<longrightarrow>
            callTool sdk m n a hp w =
               (let scoped = (cells hp a)\<lparr>args_q := Some (orgFilter (githubOrgs m) @ '' '' @ qs)\<rparr>
                in case call_tool sdk (client server) ''search_issues'' scoped w of
                     (r, w') \<Rightarrow> (r, m, snd (alloc hp scoped), w')))
       \<and> (qs = [] \<or> includes_str qs ''org:'' \<longrightarrow>
            callTool sdk m n a hp w =
               (case call_tool sdk (client server) ''search_issues'' (cells hp a) w of
                  (r, w') \<Rightarrow> (r, m, hp, w')))"
  using assms
  by (auto simp: callTool_def injectOrgs_def alloc_def Let_def)

text \<open>
  C4, as the code behaves by design. When the name resolves to the connected \<open>github\<close>
  server with raw tool \<open>search_issues\<close>, the organization list is not empty and \<open>q\<close> is a
  string: a non-empty \<open>q\<close> that has no scope qualifier and does not contain the text
  \<open>org:\<close> is forwarded prefixed with one \<open>org:<name>\<close> per organization, in order,
  separated by spaces; a \<open>q\<close> that has an organization qualifier is forwarded unchanged, and
  so is the empty \<open>q\<close>; all other properties are forwarded unchanged either way. Queries
  that have no organization qualifier but contain \<open>org:\<close> elsewhere, or are scoped by
  another qualifier, are not covered.
\<close>

theorem callTool_injects_orgs:
  assumes "splitQualified n = Inr (''github'', ''search_issues'')"
    and "find (\<lambda>s. server_name s = ''github'') (servers m) = Some server"
    and "githubOrgs m \<noteq> []"
    and "args_q (cells hp a) = Some qs"
  shows "(qs \<noteq> [] \<and> \<not> hasScopeQualifier qs \<and> \<not> includes_str qs ''org:'' \<longrightarrow>
            callTool sdk m n a hp w =
               (let scoped = (cells hp a)\<lparr>args_q := Some (orgFilter (githubOrgs m) @ '' '' @ qs)\<rparr>
                in case call_tool sdk (client server) ''search_issues'' scoped w of
                     (r, w') \<Rightarrow> (r, m, snd (alloc hp scoped), w')))
       \<and> (hasOrgQualifier qs \<or> qs = [] \<longrightarrow>
            callTool sdk m n a hp w =
               (case call_tool sdk (client server) ''search_issues'' (cells hp a) w of
                  (r, w') \<Rightarrow> (r, m, hp, w')))"
  using callTool_search_issues [OF assms, of sdk w] hasOrgQualifier_includes [of qs]
  by blast

text \<open>
  With organizations \<open>acme\<close> and \<open>west\<close>, the query \<open>bug\<close> is forwarded as
  \<open>org:acme org:west bug\<close> and the query \<open>org:acme bug\<close> as it is.
\<close>

theorem callTool_injects_orgs_witness:
  "splitQualified ''github__search_issues'' = Inr (''github'', ''search_issues'')
   \<and> find (\<lambda>s. server_name s = ''github'') (servers githubManager)
       = Some \<lparr>server_name = ''github'', client = 1, transport = 0, tools = []\<rparr>
   \<and> githubOrgs githubManager \<noteq> []
   \<and> args_q (cells (heap0 (queryArgs ''bug'')) 0) = Some ''bug''
   \<and> ''bug'' \<noteq> [] \<and> \<not> hasScopeQualifier ''bug'' \<and> \<not> includes_str ''bug'' ''org:''
   \<and> events (snd (snd (snd (callTool plainSdk githubManager ''github__search_issues'' 0
         (heap0 (queryArgs ''bug'')) world0))))
       = [CallTool 1 ''search_issues'' (queryArgs ''org:acme org:west bug'')]
   \<and> args_q (cells (heap0 (queryArgs ''org:acme bug'')) 0) = Some ''org:acme bug''
   \<and> hasOrgQualifier ''org:acme bug''
   \<and> events (snd (snd (snd (callTool plainSdk githubManager ''github__search_issues'' 0
         (heap0 (queryArgs ''org:acme bug'')) world0))))
       = [CallTool 1 ''search_issues'' (queryArgs ''org:acme bug'')]"
proof -
  let ?srv = "\<lparr>server_name = ''github'', client = 1, transport = 0, tools = []\<rparr>"
  have a: "splitQualified ''github__search_issues'' = Inr (''github'', ''search_issues'')"
    by (simp add: splitQualified_def)
  have b: "find (\<lambda>s. server_name s = ''github'') (servers githubManager) = Some ?srv"
    by (simp add: githubManager_def)
  have c: "githubOrgs githubManager \<noteq> []"
    by (simp add: githubManager_def)
  have d1: "args_q (cells (heap0 (queryArgs ''bug'')) 0) = Some ''bug''"
    by (simp add: heap0_def queryArgs_def)
  have d2: "args_q (cells (heap0 (queryArgs ''org:acme bug'')) 0) = Some ''org:acme bug''"
    by (simp add: heap0_def queryArgs_def)
  have e1: "''bug'' \<noteq> [] \<and> \<not> hasScopeQualifier ''bug'' \<and> \<not> includes_str ''bug'' ''org:''"
    by (simp add: includes_str_def hasScopeQualifier_def scopePrefixes_def)
  have e2: "hasOrgQualifier ''org:acme bug''"
    by (simp add: hasOrgQualifier_def)
  from callTool_injects_orgs [OF a b c d1, of plainSdk world0] e1
  have f1: "events (snd (snd (snd (callTool plainSdk githubManager ''github__search_issues'' 0
         (heap0 (queryArgs ''bug'')) world0))))
       = [CallTool 1 ''search_issues'' (queryArgs ''org:acme org:west bug'')]"
    by (simp add: githubManager_def plainSdk_def scriptedSdk_def heap0_def world0_def emit_def
          queryArgs_def orgFilter_def Let_def)
  from callTool_injects_orgs [OF a b c d2, of plainSdk world0] e2
  have f2: "events (snd (snd (snd (callTool plainSdk githubManager ''github__search_issues'' 0
         (heap0 (queryArgs ''org:acme bug'')) world0))))
       = [CallTool 1 ''search_issues'' (queryArgs ''org:acme bug'')]"
    by (simp add: githubManager_def plainSdk_def scriptedSdk_def heap0_def world0_def emit_def
          queryArgs_def)
  from a b c d1 d2 e1 e2 f1 f2 show ?thesis by blast
qed

text \<open>
  C4 as stated fails: the empty query contains no \<open>org:\<close>, the organization list is
  \<open>acme\<close>, \<open>west\<close>, and the query is forwarded empty, not as \<open>org:acme org:west \<close>.
\<close>

theorem callTool_empty_query_counterexample:
  "\<not> includes_str [] ''org:''
   \<and> githubOrgs githubManager = [''acme'', ''west'']
   \<and> events (snd (snd (snd (callTool plainSdk githubManager ''github__search_issues'' 0
         (heap0 (queryArgs [])) world0))))
       = [CallTool 1 ''search_issues'' (queryArgs [])]
   \<and> queryArgs [] \<noteq> (queryArgs [])\<lparr>args_q := Some (orgFilter [''acme'', ''west''] @ '' '' @ [])\<rparr>"
  by (simp add: callTool_def splitQualified_def githubManager_def plainSdk_def scriptedSdk_def
        injectOrgs_def heap0_def world0_def emit_def includes_str_def queryArgs_def)

text \<open>
  What the substring test does outside the cases above: \<open>reorg: plan\<close> has no scope
  qualifier and is forwarded as it is, and \<open>repo:o/x bug\<close> is forwarded with the
  organization qualifiers in front.
\<close>

lemma callTool_org_inside_word:
  "\<not> hasScopeQualifier ''reorg: plan''
   \<and> events (snd (snd (snd (callTool plainSdk githubManager ''github__search_issues'' 0
         (heap0 (queryArgs ''reorg: plan'')) world0))))
       = [CallTool 1 ''search_issues'' (queryArgs ''reorg: plan'')]"
  by (simp add: callTool_def splitQualified_def githubManager_def plainSdk_def scriptedSdk_def
        injectOrgs_def heap0_def world0_def emit_def includes_str_def queryArgs_def
        hasScopeQualifier_def scopePrefixes_def)

lemma callTool_repo_scoped:
  "hasScopeQualifier ''repo:o/x bug''
   \<and> events (snd (snd (snd (callTool plainSdk githubManager ''github__search_issues'' 0
         (heap0 (queryArgs ''repo:o/x bug'')) world0))))
       = [CallTool 1 ''search_issues'' (queryArgs ''org:acme org:west repo:o/x bug'')]"
  by (simp add: callTool_def splitQualified_def githubManager_def plainSdk_def scriptedSdk_def
        injectOrgs_def heap0_def world0_def emit_def includes_str_def queryArgs_def alloc_def
        orgFilter_def hasScopeQualifier_def scopePrefixes_def)

text \<open>
  C9. \<open>callTool\<close> returns the manager it was given, and every object that was allocated
  before the call, the caller's arguments object among them, holds afterwards what it held
  before: when the organization qualifiers are added, they go into a newly allocated object.
\<close>

theorem callTool_frame:
  assumes "callTool sdk m n a hp w = (r, m', hp', w')"
  shows "m' = m \<and> (\<forall>ref < top hp. cells hp' ref = cells hp ref)"
  using assms
  by (auto simp: callTool_def injectOrgs_def alloc_def Let_def
        split: sum.splits option.splits prod.splits if_splits)

theorem callTool_frame_witness:
  "callTool plainSdk githubManager ''github__search_issues'' 0 (heap0 (queryArgs ''bug'')) world0
     = (Inr JNull, githubManager,
        snd (alloc (heap0 (queryArgs ''bug'')) (queryArgs ''org:acme org:west bug'')),
        \<lparr>next_handle = 0,
         events = [CallTool 1 ''search_issues'' (queryArgs ''org:acme org:west bug'')]\<rparr>)
   \<and> (0::nat) < top (heap0 (queryArgs ''bug''))
   \<and> cells (snd (alloc (heap0 (queryArgs ''bug'')) (queryArgs ''org:acme org:west bug''))) 0
       = queryArgs ''bug''"
proof -
  have a: "callTool plainSdk githubManager ''github__search_issues'' 0 (heap0 (queryArgs ''bug'')) world0
     = (Inr JNull, githubManager,
        snd (alloc (heap0 (queryArgs ''bug'')) (queryArgs ''org:acme org:west bug'')),
        \<lparr>next_handle = 0,
         events = [CallTool 1 ''search_issues'' (queryArgs ''org:acme org:west bug'')]\<rparr>)"
    by (simp add: callTool_def splitQualified_def githubManager_def plainSdk_def scriptedSdk_def
        injectOrgs_def heap0_def world0_def emit_def includes_str_def queryArgs_def alloc_def
        orgFilter_def)
  have b: "(0::nat) < top (heap0 (queryArgs ''bug''))"
    by (simp add: heap0_def)
  from callTool_frame [OF a] b
  have "cells (snd (alloc (heap0 (queryArgs ''bug'')) (queryArgs ''org:acme org:west bug''))) 0
       = cells (heap0 (queryArgs ''bug'')) 0"
    by blast
  then have c: "cells (snd (alloc (heap0 (queryArgs ''bug'')) (queryArgs ''org:acme org:west bug''))) 0
       = queryArgs ''bug''"
    by (simp add: heap0_def)
  from a b c show ?thesis by blast
qed

section \<open>Properties of the agent loop\<close>

lemma run_terminal: "terminal (run prov exec sp ts N st)"
proof (induction prov exec sp ts N st rule: run.induct)
  case (1 prov exec sp ts N st)
  then show ?case by (subst run.simps) simp
qed

lemma run_invariant:
  assumes "I st" and "\<And>s. I s \<Longrightarrow> \<not> terminal s \<Longrightarrow> I (step prov exec sp ts N s)"
  shows "I (run prov exec sp ts N st)"
  using assms
proof (induction prov exec sp ts N st rule: run.induct)
  case (1 prov exec sp ts N st)
  show ?case
  proof (cases "terminal st")
    case True
    with "1.prems"(1) show ?thesis by (subst run.simps) simp
  next
    case False
    from "1.prems" False have "I (step prov exec sp ts N st)" by blast
    with "1.IH" [OF False] "1.prems"(2) False show ?thesis
      by (subst run.simps) simp
  qed
qed

lemma step_onTrack:
  assumes "\<forall>conv. \<exists>tx reqs. prov sp conv ts = ToolUseTurn tx reqs"
    and "onTrack N s"
  shows "onTrack N (step prov exec sp ts N s)"
proof (cases "phase s")
  case AWAITING_MODEL
  from assms(1) obtain tx reqs where "prov sp (conversation s) ts = ToolUseTurn tx reqs"
    by blast
  with AWAITING_MODEL assms(2) show ?thesis
    by (simp add: onTrack_def step_def)
next
  case EXECUTING_TOOLS
  with assms(2) show ?thesis
    by (auto simp: onTrack_def step_def split: prod.splits)
next
  case DONE
  with assms(2) show ?thesis by (simp add: onTrack_def)
next
  case ABORTED_LIMIT
  with assms(2) show ?thesis by (simp add: onTrack_def step_def)
qed

lemma run_always_tools:
  assumes "0 < N" and "\<forall>conv. \<exists>tx reqs. prov sp conv ts = ToolUseTurn tx reqs"
  shows "phase (run prov exec sp ts N (initialState um s0)) = ABORTED_LIMIT
     \<and> iterationCounter (run prov exec sp ts N (initialState um s0)) = N
     \<and> providerCalls (run prov exec sp ts N (initialState um s0)) = N"
proof -
  have "onTrack N (initialState um s0)"
    using assms(1) by (simp add: onTrack_def initialState_def)
  then have "onTrack N (run prov exec sp ts N (initialState um s0))"
    by (rule run_invariant)
       (rule step_onTrack [where prov = prov and sp = sp and ts = ts, OF assms(2)])
  moreover have "terminal (run prov exec sp ts N (initialState um s0))"
    by (rule run_terminal)
  ultimately show ?thesis
    by (auto simp: onTrack_def terminal_def split: phase.splits)
qed

lemma run_final_first:
  assumes "prov sp [\<lparr>role = User, content = Text um\<rparr>] ts = FinalText t"
  shows "run prov exec sp ts N (initialState um s0)
     = (initialState um s0)\<lparr>phase := DONE,
          conversation := [\<lparr>role = User, content = Text um\<rparr>,
                           \<lparr>role = Assistant, content = Text t\<rparr>],
          providerCalls := 1\<rparr>"
proof -
  have a: "\<not> terminal (initialState um s0)"
    by (simp add: terminal_def initialState_def)
  have b: "step prov exec sp ts N (initialState um s0)
     = (initialState um s0)\<lparr>phase := DONE,
          conversation := [\<lparr>role = User, content = Text um\<rparr>,
                           \<lparr>role = Assistant, content = Text t\<rparr>],
          providerCalls := 1\<rparr>"
    using assms by (simp add: step_def initialState_def)
  have c: "terminal (step prov exec sp ts N (initialState um s0))"
    unfolding b by (simp add: terminal_def)
  have "run prov exec sp ts N (initialState um s0)
      = run prov exec sp ts N (step prov exec sp ts N (initialState um s0))"
    using a by (subst run.simps) simp
  also have "\<dots> = step prov exec sp ts N (initialState um s0)"
    using c by (subst run.simps) simp
  finally show ?thesis using b by simp
qed

lemma assistantTexts_append:
  "assistantTexts (xs @ ys) = assistantTexts xs @ assistantTexts ys"
  by (induction xs) (auto split: role.splits content.splits option.splits)

lemma assistantTexts_results:
  "assistantTexts (map (\<lambda>r. \<lparr>role = ToolResult, content = ToolOutcome r\<rparr>) rs) = []"
  by (induction rs) simp_all

lemma step_silent:
  assumes "\<forall>conv. \<exists>reqs. prov sp conv ts = ToolUseTurn None reqs"
    and "assistantTexts (conversation s) = []"
  shows "assistantTexts (conversation (step prov exec sp ts N s)) = []"
proof (cases "phase s")
  case AWAITING_MODEL
  from assms(1) obtain reqs where "prov sp (conversation s) ts = ToolUseTurn None reqs"
    by blast
  with AWAITING_MODEL assms(2) show ?thesis
    by (simp add: step_def assistantTexts_append)
next
  case EXECUTING_TOOLS
  with assms(2) show ?thesis
    by (simp add: step_def assistantTexts_append assistantTexts_results split: prod.splits)
next
  case DONE
  with assms(2) show ?thesis by (simp add: step_def)
next
  case ABORTED_LIMIT
  with assms(2) show ?thesis by (simp add: step_def)
qed

lemma run_silent:
  assumes "\<forall>conv. \<exists>reqs. prov sp conv ts = ToolUseTurn None reqs"
  shows "assistantTexts (conversation (run prov exec sp ts N (initialState um s0))) = []"
proof -
  have "assistantTexts (conversation (initialState um s0)) = []"
    by (simp add: initialState_def)
  then show ?thesis
    by (rule run_invariant [where I = "\<lambda>s. assistantTexts (conversation s) = []"])
       (rule step_silent [where prov = prov and sp = sp and ts = ts, OF assms])
qed

lemma run_silent_fallback:
  assumes "0 < N" and "\<forall>conv. \<exists>reqs. prov sp conv ts = ToolUseTurn None reqs"
  shows "runAgent prov exec sp um ts N fallback s0 = (fallback, iterationLimit)"
proof -
  from assms(2) have "\<forall>conv. \<exists>tx reqs. prov sp conv ts = ToolUseTurn tx reqs"
    by blast
  from run_always_tools [where prov = prov and sp = sp and ts = ts, OF assms(1) this, of exec um s0]
    run_silent [where prov = prov and sp = sp and ts = ts, OF assms(2), of exec N um s0]
  show ?thesis
    by (simp add: runAgent_def resultOf_def lastTextOr_def)
qed

text \<open>
  C6, for a bound \<open>N\<close> of at least one. If the provider answers every invocation with a
  tool-use turn, the run ends in \<open>ABORTED_LIMIT\<close> after exactly \<open>N\<close> invocations of the
  provider, with the counter at \<open>N\<close>, and returns the last assistant text of the
  conversation, or the fallback when there is none, with reason \<open>iterationLimit\<close>; when no
  turn carries assistant text, that is the fallback. If the
  provider answers the first invocation with a final text, the run ends in \<open>DONE\<close> after
  exactly one invocation and returns that text, with reason \<open>completed\<close>. \<open>run\<close> is a
  total function: a run always ends and returns a value.
\<close>

theorem agent_loop_bound:
  assumes "0 < N"
  shows "((\<forall>conv. \<exists>tx reqs. prov sp conv ts = ToolUseTurn tx reqs) \<longrightarrow>
            phase (run prov exec sp ts N (initialState um s0)) = ABORTED_LIMIT
          \<and> providerCalls (run prov exec sp ts N (initialState um s0)) = N
          \<and> iterationCounter (run prov exec sp ts N (initialState um s0)) = N
          \<and> runAgent prov exec sp um ts N fallback s0
              = (lastTextOr fallback
                   (assistantTexts (conversation (run prov exec sp ts N (initialState um s0)))),
                 iterationLimit))
       \<and> ((\<forall>conv. \<exists>reqs. prov sp conv ts = ToolUseTurn None reqs) \<longrightarrow>
            runAgent prov exec sp um ts N fallback s0 = (fallback, iterationLimit))
       \<and> (\<forall>t. prov sp [\<lparr>role = User, content = Text um\<rparr>] ts = FinalText t \<longrightarrow>
            phase (run prov exec sp ts N (initialState um s0)) = DONE
          \<and> providerCalls (run prov exec sp ts N (initialState um s0)) = 1
          \<and> runAgent prov exec sp um ts N fallback s0 = (t, completed))"
proof (intro conjI impI allI)
  assume h: "\<forall>conv. \<exists>tx reqs. prov sp conv ts = ToolUseTurn tx reqs"
  note r = run_always_tools [where prov = prov and sp = sp and ts = ts, OF assms h, of exec um s0]
  from r show "phase (run prov exec sp ts N (initialState um s0)) = ABORTED_LIMIT" by simp
  from r show "providerCalls (run prov exec sp ts N (initialState um s0)) = N" by simp
  from r show "iterationCounter (run prov exec sp ts N (initialState um s0)) = N" by simp
  from r show "runAgent prov exec sp um ts N fallback s0
              = (lastTextOr fallback
                   (assistantTexts (conversation (run prov exec sp ts N (initialState um s0)))),
                 iterationLimit)"
    by (simp add: runAgent_def resultOf_def)
next
  assume h: "\<forall>conv. \<exists>reqs. prov sp conv ts = ToolUseTurn None reqs"
  show "runAgent prov exec sp um ts N fallback s0 = (fallback, iterationLimit)"
    by (rule run_silent_fallback [where prov = prov and sp = sp and ts = ts, OF assms h])
next
  fix t
  assume h: "prov sp [\<lparr>role = User, content = Text um\<rparr>] ts = FinalText t"
  note r = run_final_first [where prov = prov and sp = sp and ts = ts, OF h, of exec N s0]
  show "phase (run prov exec sp ts N (initialState um s0)) = DONE"
    unfolding r by simp
  show "providerCalls (run prov exec sp ts N (initialState um s0)) = 1"
    unfolding r by simp
  show "runAgent prov exec sp um ts N fallback s0 = (t, completed)"
    unfolding runAgent_def r by (simp add: resultOf_def lastTextOr_def)
qed

text \<open>The default bound, a provider that always asks for tools, and one that answers at once.\<close>

theorem agent_loop_bound_witness:
  "0 < defaultMaxIterations
   \<and> defaultMaxIterations = 20
   \<and> (\<forall>conv. \<exists>tx reqs. alwaysTools ''sys'' conv [] = ToolUseTurn tx reqs)
   \<and> phase (run alwaysTools failingExec ''sys'' [] defaultMaxIterations (initialState ''go'' ()))
       = ABORTED_LIMIT
   \<and> providerCalls (run alwaysTools failingExec ''sys'' [] defaultMaxIterations (initialState ''go'' ()))
       = defaultMaxIterations
   \<and> (\<forall>conv. \<exists>reqs. alwaysTools ''sys'' conv [] = ToolUseTurn None reqs)
   \<and> runAgent alwaysTools failingExec ''sys'' ''go'' [] defaultMaxIterations ''(no text)'' ()
       = (''(no text)'', iterationLimit)
   \<and> answers ''report'' ''sys'' [\<lparr>role = User, content = Text ''go''\<rparr>] [] = FinalText ''report''
   \<and> phase (run (answers ''report'') failingExec ''sys'' [] defaultMaxIterations
         (initialState ''go'' ()))
       = DONE
   \<and> providerCalls (run (answers ''report'') failingExec ''sys'' [] defaultMaxIterations
         (initialState ''go'' ()))
       = 1
   \<and> runAgent (answers ''report'') failingExec ''sys'' ''go'' [] defaultMaxIterations ''(no text)'' ()
       = (''report'', completed)"
proof -
  have a: "0 < defaultMaxIterations" by (simp add: defaultMaxIterations_def)
  have a': "defaultMaxIterations = 20" by (simp add: defaultMaxIterations_def)
  have b: "\<forall>conv. \<exists>tx reqs. alwaysTools ''sys'' conv [] = ToolUseTurn tx reqs"
    by (simp add: alwaysTools_def)
  have c: "answers ''report'' ''sys'' [\<lparr>role = User, content = Text ''go''\<rparr>] [] = FinalText ''report''"
    by (simp add: answers_def)
  have d: "\<forall>conv. \<exists>reqs. alwaysTools ''sys'' conv [] = ToolUseTurn None reqs"
    by (simp add: alwaysTools_def)
  note t1 = agent_loop_bound
    [OF a, of alwaysTools "''sys''" "[]" failingExec "''go''" "()" "''(no text)''"]
  note t2 = agent_loop_bound
    [OF a, of "answers ''report''" "''sys''" "[]" failingExec "''go''" "()" "''(no text)''"]
  from t1 b have e:
    "phase (run alwaysTools failingExec ''sys'' [] defaultMaxIterations (initialState ''go'' ()))
       = ABORTED_LIMIT
     \<and> providerCalls (run alwaysTools failingExec ''sys'' [] defaultMaxIterations
           (initialState ''go'' ()))
       = defaultMaxIterations"
    by blast
  from t1 d have f:
    "runAgent alwaysTools failingExec ''sys'' ''go'' [] defaultMaxIterations ''(no text)'' ()
       = (''(no text)'', iterationLimit)"
    by blast
  from t2 c have g:
    "phase (run (answers ''report'') failingExec ''sys'' [] defaultMaxIterations
         (initialState ''go'' ()))
       = DONE
     \<and> providerCalls (run (answers ''report'') failingExec ''sys'' [] defaultMaxIterations
         (initialState ''go'' ()))
       = 1
     \<and> runAgent (answers ''report'') failingExec ''sys'' ''go'' [] defaultMaxIterations ''(no text)'' ()
       = (''report'', completed)"
    by blast
  from a a' b c d e f g show ?thesis by blast
qed

end
